theory Spec2Isabelle
  imports Main "HOL-Library.Monad_Syntax"
begin

section \<open>JavaScript values used by the parser\<close>

text \<open>
  A frame is a JavaScript string. It is modelled as a \<^typ>\<open>string\<close>, one \<^typ>\<open>char\<close> per
  code unit, which covers the code units 0 to 255.

  A JavaScript number is a double. The parser only ever produces non-negative integral
  doubles, the value NaN and (for digit strings of more than 308 digits) Infinity.
\<close>

datatype jsnum = Num nat | NaN | Infinity

text \<open>
  The values a packet's \<open>data\<close> can hold: the JSON values, and BigInt as a value that
  \<open>JSON.stringify\<close> refuses with a TypeError. Integral numbers suffice for the payloads
  considered here.
\<close>

datatype jsval =
    JNull
  | JBool bool
  | JNum int
  | JStr string
  | JArr "jsval list"
  | JObj "(string \<times> jsval) list"
  | JBigInt int

text \<open>The outcome of a call that may raise.\<close>

datatype 'a outcome = Returns 'a | Raises

subsection \<open>\<open>Number(string)\<close>\<close>

text \<open>
  The white space that \<open>Number\<close> strips from both ends of a string (WhiteSpace and
  LineTerminator of ECMAScript) among the code units 0 to 255: TAB, LF, VT, FF, CR, SP and
  NBSP.
\<close>

definition isStrWhiteSpaceChar :: "char \<Rightarrow> bool" where
  "isStrWhiteSpaceChar c = ((of_char c :: nat) \<in> {9, 10, 11, 12, 13, 32, 160})"

definition isDecimalDigit :: "char \<Rightarrow> bool" where
  "isDecimalDigit c = (48 \<le> (of_char c :: nat) \<and> (of_char c :: nat) \<le> 57)"

definition digitValue :: "char \<Rightarrow> nat" where
  "digitValue c = of_char c - 48"

definition mathematicalValue :: "string \<Rightarrow> nat" where
  "mathematicalValue s = foldl (\<lambda>v c. 10 * v + digitValue c) 0 s"

definition trim :: "string \<Rightarrow> string" where
  "trim s = rev (dropWhile isStrWhiteSpaceChar (rev (dropWhile isStrWhiteSpaceChar s)))"

fun bitLength :: "nat \<Rightarrow> nat" where
  "bitLength n = (if n = 0 then 0 else Suc (bitLength (n div 2)))"

declare bitLength.simps [simp del]

text \<open>
  The double nearest to a natural number, ties to even; numbers of at most 53 bits (those
  below \<open>2^53\<close>) are doubles themselves, and a result of \<open>2^1024\<close> or more is Infinity.
\<close>

definition roundToDouble :: "nat \<Rightarrow> jsnum" where
  "roundToDouble n =
     (if bitLength n \<le> 53 then Num n
      else
        let e = bitLength n - 53;
            q = n div 2 ^ e;
            r = n mod 2 ^ e;
            half = 2 ^ (e - 1);
            q = (if half < r \<or> (r = half \<and> odd q) then q + 1 else q);
            v = q * 2 ^ e
        in if v < 2 ^ 1024 then Num v else Infinity)"

text \<open>
  \<open>Number(s)\<close> for a string \<open>s\<close> of white space and decimal digits: the white space at both
  ends is dropped, the empty string is 0, decimal digits are read in base 10 (leading
  zeros included), and anything else is NaN. The decoder applies \<open>Number\<close> to strings of
  at most one character and to the characters it has accumulated for the id, each of
  which is white space or a digit; on every other string of one character (a sign, a dot,
  a letter) \<open>Number\<close> is NaN as well.
\<close>

definition Number :: "string \<Rightarrow> jsnum" where
  "Number s =
     (let t = trim s
      in if t = [] then Num 0
         else if list_all isDecimalDigit t then roundToDouble (mathematicalValue t)
         else NaN)"

text \<open>
  \<open>n == s\<close> and \<open>n != s\<close> for a number \<open>n\<close> and a string \<open>s\<close>: the string is converted with
  \<open>Number\<close> and the numbers are compared; NaN is equal to nothing.
\<close>

definition looseEq :: "jsnum \<Rightarrow> string \<Rightarrow> bool" where
  "looseEq n s = (n \<noteq> NaN \<and> n = Number s)"

subsection \<open>Number to string\<close>

fun decimal :: "nat \<Rightarrow> string" where
  "decimal n =
     (if n < 10 then [char_of (48 + n)]
      else decimal (n div 10) @ [char_of (48 + n mod 10)])"

declare decimal.simps [simp del]

text \<open>
  \<open>'' + n\<close> for a number \<open>n\<close>. Up to \<open>2^53\<close> JavaScript prints the decimal digits of the
  number. Above, it prints the shortest digits that read back to the same double (in
  exponent form from \<open>10^21\<close> on), which \<open>decimal\<close> does not model: the statements that
  depend on the digits of an id bound the id by \<open>2^53\<close>.
\<close>

fun numToString :: "jsnum \<Rightarrow> string" where
  "numToString (Num n) = decimal n"
| "numToString NaN = ''NaN''"
| "numToString Infinity = ''Infinity''"

section \<open>Packets\<close>

text \<open>
  A packet object. A property that the object does not have is \<open>None\<close>.
\<close>

record packet =
  p_type :: jsnum
  p_nsp :: "string option"
  p_id :: "jsnum option"
  p_data :: "jsval option"

definition types :: "string list" where
  "types = [''CONNECT'', ''DISCONNECT'', ''EVENT'', ''ACK'', ''ERROR'']"

definition CONNECT :: jsnum where "CONNECT = Num 0"
definition DISCONNECT :: jsnum where "DISCONNECT = Num 1"
definition EVENT :: jsnum where "EVENT = Num 2"
definition ACK :: jsnum where "ACK = Num 3"
definition ERROR :: jsnum where "ERROR = Num 4"

text \<open>\<open>exports.types[n]\<close>; \<open>None\<close> is \<open>undefined\<close>.\<close>

fun types_at :: "jsnum \<Rightarrow> string option" where
  "types_at (Num n) = (if n < length types then Some (types ! n) else None)"
| "types_at NaN = None"
| "types_at Infinity = None"

section \<open>Encoder\<close>

definition ERROR_PACKET :: string where
  \<open>ERROR_PACKET = numToString ERROR @ ''"encode error"''\<close>

text \<open>
  \<open>_tryStringify\<close>: \<open>JSON.stringify\<close> is the parameter \<open>stringify\<close>; \<open>None\<close> is the result
  \<open>false\<close>.
\<close>

definition tryStringify :: "(jsval \<Rightarrow> string outcome) \<Rightarrow> jsval \<Rightarrow> string option" where
  "tryStringify stringify object =
     (case stringify object of Returns t \<Rightarrow> Some t | Raises \<Rightarrow> None)"

definition encodePacket :: "(jsval \<Rightarrow> string outcome) \<Rightarrow> packet \<Rightarrow> string" where
  "encodePacket stringify packet =
     (let encodedPacket = numToString (p_type packet);
          encodedPacket =
            (case p_nsp packet of
               Some nsp \<Rightarrow>
                 if nsp \<noteq> [] \<and> ''/'' \<noteq> nsp then encodedPacket @ nsp @ '','' else encodedPacket
             | None \<Rightarrow> encodedPacket);
          encodedPacket =
            (case p_id packet of
               Some n \<Rightarrow> encodedPacket @ numToString n
             | None \<Rightarrow> encodedPacket)
      in case p_data packet of
           None \<Rightarrow> encodedPacket
         | Some d \<Rightarrow>
             if d = JNull then encodedPacket
             else (case tryStringify stringify d of
                     Some payload \<Rightarrow> encodedPacket @ payload
                   | None \<Rightarrow> ERROR_PACKET))"

text \<open>
  The logger \<open>debug\<close> of the package of that name is a parameter: the outcome of the call
  \<open>debug('encoding packet %j', packet)\<close>. A disabled logger does nothing. In Node an
  enabled logger hands \<open>%j\<close> to \<open>util.format\<close>, which serializes the packet with
  \<open>JSON.stringify\<close> and raises what that raises, unless the error is the one for a
  circular structure (no value of \<^typ>\<open>jsval\<close> is circular). Of the properties of a
  packet only \<open>data\<close> can make \<open>JSON.stringify\<close> raise; a property that is absent is left
  out.
\<close>

definition debug_disabled :: "packet \<Rightarrow> unit outcome" where
  "debug_disabled packet = Returns ()"

definition debug_enabled :: "(jsval \<Rightarrow> string outcome) \<Rightarrow> packet \<Rightarrow> unit outcome" where
  "debug_enabled stringify packet =
     (case p_data packet of
        None \<Rightarrow> Returns ()
      | Some d \<Rightarrow> (case stringify d of Returns t \<Rightarrow> Returns () | Raises \<Rightarrow> Raises))"

text \<open>
  \<open>encode\<close>: the call of \<open>debug\<close> comes first, outside any \<open>try\<close>, and what it raises is
  raised by \<open>encode\<close>. Otherwise the result lists the calls of \<open>callback\<close>, each with the
  array it is given.
\<close>

definition encode ::
  "(packet \<Rightarrow> unit outcome) \<Rightarrow> (jsval \<Rightarrow> string outcome) \<Rightarrow> packet \<Rightarrow> string list list outcome"
where
  "encode debug stringify packet =
     (case debug packet of
        Raises \<Rightarrow> Raises
      | Returns u \<Rightarrow> Returns [ [encodePacket stringify packet] ])"

section \<open>Decoder\<close>

definition charAt :: "string \<Rightarrow> nat \<Rightarrow> string" where
  "charAt s i = (if i < length s then [s ! i] else [])"

definition substr :: "string \<Rightarrow> nat \<Rightarrow> string" where
  "substr s i = drop i s"

definition buildError :: "string \<Rightarrow> packet" where
  "buildError msg =
     \<lparr>p_type = ERROR, p_nsp = None, p_id = None,
      p_data = Some (JStr (''parser error: '' @ msg))\<rparr>"

fun isArray :: "jsval \<Rightarrow> bool" where
  "isArray (JArr xs) = True"
| "isArray v = False"

text \<open>
  \<open>_tryParse\<close>: \<open>yieldableJSON.parseAsync\<close> is the parameter \<open>parse\<close>, \<open>None\<close> when it reports
  an error. The promise resolves to \<open>false\<close> on an error and to the parsed value otherwise.
\<close>

definition tryParse :: "(string \<Rightarrow> jsval option) \<Rightarrow> string \<Rightarrow> jsval" where
  "tryParse parse encodedData =
     (case parse encodedData of None \<Rightarrow> JBool False | Some parsedJSON \<Rightarrow> parsedJSON)"

text \<open>
  The namespace loop \<open>while (++i) { ... }\<close>, from the index \<open>i\<close> and the namespace read so
  far; \<open>++i\<close> is never 0. The result is the index and the namespace at the \<open>break\<close>.
\<close>

partial_function (option) nsp_loop :: "string \<Rightarrow> nat \<Rightarrow> string \<Rightarrow> (nat \<times> string) option" where
  "nsp_loop encodedPacket i nsp =
     (let i = i + 1;
          c = charAt encodedPacket i
      in if '','' = c then Some (i, nsp)
         else let nsp = nsp @ c
              in if i = length encodedPacket then Some (i, nsp)
                 else nsp_loop encodedPacket i nsp)"

declare nsp_loop.simps [code]

text \<open>
  The id loop. \<open>null == c\<close> is false for every string \<open>c\<close>, so the loop leaves through
  \<open>Number(c) != c\<close> (after \<open>--i\<close>) or through \<open>i === encodedPacket.length\<close>.
\<close>

partial_function (option) id_loop :: "string \<Rightarrow> nat \<Rightarrow> string \<Rightarrow> (nat \<times> string) option" where
  "id_loop encodedPacket i id' =
     (let i = i + 1;
          c = charAt encodedPacket i
      in if \<not> looseEq (Number c) c then Some (i - 1, id')
         else let id' = id' @ c
              in if i = length encodedPacket then Some (i, id')
                 else id_loop encodedPacket i id')"

declare id_loop.simps [code]

text \<open>\<open>// look up namespace (if any)\<close>\<close>

definition lookup_namespace :: "string \<Rightarrow> nat \<Rightarrow> (nat \<times> string) option" where
  "lookup_namespace encodedPacket i =
     (if ''/'' = charAt encodedPacket 1 then nsp_loop encodedPacket i ''''
      else Some (i, ''/''))"

text \<open>\<open>// look up id (if any)\<close>\<close>

definition lookup_id :: "string \<Rightarrow> nat \<Rightarrow> (nat \<times> jsnum option) option" where
  "lookup_id encodedPacket i =
     (let next = charAt encodedPacket (i + 1)
      in if '''' \<noteq> next \<and> looseEq (Number next) next
         then do {
           (i, id') \<leftarrow> id_loop encodedPacket i '''';
           Some (i, Some (Number id'))
         }
         else Some (i, None))"

text \<open>\<open>// look up json data\<close>\<close>

definition lookup_data ::
  "(string \<Rightarrow> jsval option) \<Rightarrow> jsnum \<Rightarrow> string \<Rightarrow> jsnum option \<Rightarrow> string \<Rightarrow> nat \<Rightarrow> packet"
where
  "lookup_data parse type nsp id' encodedPacket i =
     (let i = i + 1
      in if charAt encodedPacket i \<noteq> ''''
         then
           let payload = tryParse parse (substr encodedPacket i);
               isPayloadValid = (payload \<noteq> JBool False \<and> (type = ERROR \<or> isArray payload))
           in if isPayloadValid
              then \<lparr>p_type = type, p_nsp = Some nsp, p_id = id', p_data = Some payload\<rparr>
              else buildError ''invalid payload''
         else \<lparr>p_type = type, p_nsp = Some nsp, p_id = id', p_data = None\<rparr>)"

text \<open>
  \<open>_decodePacket\<close>: \<open>None\<close> is a promise that never resolves.
\<close>

definition decodePacket :: "(string \<Rightarrow> jsval option) \<Rightarrow> string \<Rightarrow> packet option" where
  "decodePacket parse encodedPacket =
     (let i = 0;
          type = Number (charAt encodedPacket 0)
      in if types_at type = None
         then Some (buildError (''unknown packet type '' @ numToString type))
         else do {
           (i, nsp) \<leftarrow> lookup_namespace encodedPacket i;
           (i, id') \<leftarrow> lookup_id encodedPacket i;
           Some (lookup_data parse type nsp id' encodedPacket i)
         })"

text \<open>
  \<open>add\<close>: a thrown error is \<open>Inl\<close>; otherwise the result lists the packets emitted as
  \<open>decoded\<close>. The error \<open>UnknownType v\<close> is \<open>new Error('Unknown type: ' + v)\<close>.
\<close>

datatype error = UnknownType jsval

definition add :: "(string \<Rightarrow> jsval option) \<Rightarrow> jsval \<Rightarrow> error + packet list" where
  "add parse encodedPacket =
     (case encodedPacket of
        JStr s \<Rightarrow>
          Inr (case decodePacket parse s of Some packet \<Rightarrow> [packet] | None \<Rightarrow> [])
      | _ \<Rightarrow> Inl (UnknownType encodedPacket))"

section \<open>Auxiliary notions\<close>

subsection \<open>A JSON capability for concrete frames\<close>

text \<open>
  \<open>JSON.stringify\<close> and \<open>yieldableJSON.parseAsync\<close> on the values and texts of the concrete
  frames below; the capability fails on everything else.
\<close>

definition fixture_stringify :: "jsval \<Rightarrow> string outcome" where
  \<open>fixture_stringify v =
     (if v = JArr [JStr ''hello''] then Returns ''["hello"]''
      else if v = JArr [] then Returns ''[]''
      else if v = JObj [] then Returns ''{}''
      else if v = JNum 5 then Returns ''5''
      else if v = JBool False then Returns ''false''
      else Raises)\<close>

definition fixture_parse :: "string \<Rightarrow> jsval option" where
  \<open>fixture_parse t =
     (if t = ''["hello"]'' then Some (JArr [JStr ''hello''])
      else if t = ''[]'' then Some (JArr [])
      else if t = ''{}'' then Some (JObj [])
      else if t = ''5'' then Some (JNum 5)
      else if t = ''false'' then Some (JBool False)
      else None)\<close>

subsection \<open>The scan as a function of the remaining text\<close>

text \<open>
  The characters that the id stage accepts: those \<open>c\<close> with \<open>Number(c) == c\<close>.
\<close>

definition numeric :: "char \<Rightarrow> bool" where
  "numeric c = (isDecimalDigit c \<or> isStrWhiteSpaceChar c)"

text \<open>
  The three stages after the type, each on the text that the stage before has left. They
  are not part of the source: \<open>decodePacket_scanPacket\<close> below proves that the decoder
  computes them.
\<close>

definition scanNamespace :: "string \<Rightarrow> string \<times> string" where
  "scanNamespace r =
     (if r \<noteq> [] \<and> hd r = CHR ''/''
      then (takeWhile (\<lambda>c. c \<noteq> CHR '','') r, drop 1 (dropWhile (\<lambda>c. c \<noteq> CHR '','') r))
      else (''/'', r))"

definition scanId :: "string \<Rightarrow> jsnum option \<times> string" where
  "scanId r =
     (if r \<noteq> [] \<and> numeric (hd r)
      then (Some (Number (takeWhile numeric r)), dropWhile numeric r)
      else (None, r))"

definition scanPayload ::
  "(string \<Rightarrow> jsval option) \<Rightarrow> jsnum \<Rightarrow> string \<Rightarrow> jsnum option \<Rightarrow> string \<Rightarrow> packet"
where
  "scanPayload parse type nsp id' r =
     (if r \<noteq> []
      then if tryParse parse r \<noteq> JBool False \<and> (type = ERROR \<or> isArray (tryParse parse r))
           then \<lparr>p_type = type, p_nsp = Some nsp, p_id = id', p_data = Some (tryParse parse r)\<rparr>
           else buildError ''invalid payload''
      else \<lparr>p_type = type, p_nsp = Some nsp, p_id = id', p_data = None\<rparr>)"

definition scanPacket :: "(string \<Rightarrow> jsval option) \<Rightarrow> string \<Rightarrow> packet" where
  "scanPacket parse s =
     (let type = Number (take 1 s)
      in if types_at type = None
         then buildError (''unknown packet type '' @ numToString type)
         else scanPayload parse type
                (fst (scanNamespace (drop 1 s)))
                (fst (scanId (snd (scanNamespace (drop 1 s)))))
                (snd (scanId (snd (scanNamespace (drop 1 s))))))"

section \<open>The decoder computes the scan\<close>

lemma charAt_in: "i < length s \<Longrightarrow> charAt s i = [s ! i]"
  by (simp add: charAt_def)

lemma charAt_out: "length s \<le> i \<Longrightarrow> charAt s i = []"
  by (simp add: charAt_def)

lemma charAt_drop: "charAt s i = take 1 (drop i s)"
  by (cases "i < length s") (simp_all add: charAt_def take_Suc_conv_app_nth hd_drop_conv_nth take_Suc)

lemma nsp_loop_closed:
  "i < length s \<Longrightarrow>
   nsp_loop s i acc =
     Some (Suc i + length (takeWhile (\<lambda>c. c \<noteq> CHR '','') (drop (Suc i) s)),
           acc @ takeWhile (\<lambda>c. c \<noteq> CHR '','') (drop (Suc i) s))"
proof (induction n \<equiv> "length s - Suc i" arbitrary: i acc)
  case 0
  then have "Suc i = length s" by simp
  then show ?case
    by (subst nsp_loop.simps) (simp add: charAt_out)
next
  case (Suc n)
  then have lt: "Suc i < length s" by simp
  then have dr: "drop (Suc i) s = s ! Suc i # drop (Suc (Suc i)) s"
    by (simp add: Cons_nth_drop_Suc)
  show ?case
  proof (cases "s ! Suc i = CHR '',''")
    case True
    with lt dr show ?thesis
      by (subst nsp_loop.simps) (simp add: charAt_in)
  next
    case False
    from Suc.hyps(2) have "n = length s - Suc (Suc i)" by simp
    from Suc.hyps(1) [OF this lt, of "acc @ [s ! Suc i]"] False lt dr show ?thesis
      by (subst nsp_loop.simps) (auto simp add: charAt_in)
  qed
qed

lemma roundToDouble_not_NaN: "roundToDouble n \<noteq> NaN"
  by (simp add: roundToDouble_def Let_def)

lemma Number_char: "Number [c] \<noteq> NaN \<longleftrightarrow> numeric c"
  by (simp add: Number_def trim_def roundToDouble_not_NaN numeric_def)

lemma looseEq_char: "looseEq (Number [c]) [c] \<longleftrightarrow> numeric c"
  using Number_char [of c] by (simp add: looseEq_def)

lemma looseEq_empty: "looseEq (Number []) []"
  by (simp add: looseEq_def Number_def trim_def)

lemma id_loop_closed:
  "i < length s \<Longrightarrow>
   id_loop s i acc =
     Some (if Suc i + length (takeWhile numeric (drop (Suc i) s)) = length s
           then length s else i + length (takeWhile numeric (drop (Suc i) s)),
           acc @ takeWhile numeric (drop (Suc i) s))"
proof (induction n \<equiv> "length s - Suc i" arbitrary: i acc)
  case 0
  then have "Suc i = length s" by simp
  then show ?case
    by (subst id_loop.simps) (simp add: charAt_out looseEq_empty)
next
  case (Suc n)
  then have lt: "Suc i < length s" by simp
  then have dr: "drop (Suc i) s = s ! Suc i # drop (Suc (Suc i)) s"
    by (simp add: Cons_nth_drop_Suc)
  show ?case
  proof (cases "numeric (s ! Suc i)")
    case False
    with lt dr show ?thesis
      by (subst id_loop.simps) (simp add: charAt_in looseEq_char)
  next
    case True
    from Suc.hyps(2) have "n = length s - Suc (Suc i)" by simp
    from Suc.hyps(1) [OF this lt, of "acc @ [s ! Suc i]"] True lt dr show ?thesis
      by (subst id_loop.simps) (auto simp add: charAt_in looseEq_char)
  qed
qed

lemma drop_takeWhile_len: "drop (length (takeWhile P xs)) xs = dropWhile P xs"
  by (induction xs) auto

lemma lookup_namespace_scan:
  "\<exists>i. lookup_namespace s 0 = Some (i, fst (scanNamespace (drop 1 s)))
       \<and> drop (Suc i) s = snd (scanNamespace (drop 1 s))"
proof (cases "''/'' = charAt s 1")
  case True
  then have lt: "1 < length s" and c: "s ! 1 = CHR ''/''"
    by (auto simp add: charAt_def split: if_splits)
  then have d1: "drop 1 s \<noteq> []" "hd (drop 1 s) = CHR ''/''"
    by (simp_all add: hd_drop_conv_nth)
  let ?ns = "takeWhile (\<lambda>c. c \<noteq> CHR '','') (drop 1 s)"
  from lt have "0 < length s" by arith
  from nsp_loop_closed [OF this, of "[]"]
  have "nsp_loop s 0 [] = Some (Suc 0 + length ?ns, ?ns)"
    by simp
  moreover have "drop (Suc (Suc 0 + length ?ns)) s = drop 1 (dropWhile (\<lambda>c. c \<noteq> CHR '','') (drop 1 s))"
  proof -
    have "drop (Suc (Suc 0 + length ?ns)) s = drop 1 (drop (length ?ns) (drop 1 s))"
      by (simp add: add.commute)
    then show ?thesis by (simp only: drop_takeWhile_len)
  qed
  ultimately show ?thesis
    using True d1 by (simp add: lookup_namespace_def scanNamespace_def)
next
  case False
  then have "\<not> (drop 1 s \<noteq> [] \<and> hd (drop 1 s) = CHR ''/'')"
    by (auto simp add: charAt_def hd_drop_conv_nth split: if_splits)
  with False show ?thesis
    by (auto simp add: lookup_namespace_def scanNamespace_def)
qed

lemma lookup_id_scan:
  "\<exists>j. lookup_id s i = Some (j, fst (scanId (drop (Suc i) s)))
       \<and> drop (Suc j) s = snd (scanId (drop (Suc i) s))"
proof (cases "Suc i < length s \<and> numeric (s ! Suc i)")
  case True
  then have lt: "i < length s" and n: "charAt s (i + 1) = [s ! Suc i]"
    by (simp_all add: charAt_def)
  from True have d1: "drop (Suc i) s \<noteq> []" "numeric (hd (drop (Suc i) s))"
    by (simp_all add: hd_drop_conv_nth)
  let ?d = "takeWhile numeric (drop (Suc i) s)"
  let ?j = "if Suc i + length ?d = length s then length s else i + length ?d"
  have il: "id_loop s i [] = Some (?j, ?d)"
    using id_loop_closed [OF lt, of "[]"] by simp
  have "drop (Suc ?j) s = dropWhile numeric (drop (Suc i) s)"
  proof (cases "Suc i + length ?d = length s")
    case True
    then have len: "length ?d = length (drop (Suc i) s)" by simp
    have "dropWhile numeric (drop (Suc i) s) = drop (length ?d) (drop (Suc i) s)"
      by (simp only: drop_takeWhile_len)
    also have "\<dots> = []" unfolding len by simp
    finally have e: "dropWhile numeric (drop (Suc i) s) = []" .
    from True have "drop (Suc ?j) s = []" by (simp only: if_True) simp
    with e show ?thesis by (simp only:)
  next
    case False
    have "drop (Suc (i + length ?d)) s = drop (length ?d) (drop (Suc i) s)"
      by (simp add: add.commute)
    with False show ?thesis by (simp only: drop_takeWhile_len if_False)
  qed
  with il d1 n True show ?thesis
    by (simp add: lookup_id_def scanId_def looseEq_char del: takeWhile_eq_all_conv)
next
  case False
  then have a: "\<not> ('''' \<noteq> charAt s (i + 1) \<and> looseEq (Number (charAt s (i + 1))) (charAt s (i + 1)))"
    by (auto simp add: charAt_def looseEq_char)
  from False have "\<not> (drop (Suc i) s \<noteq> [] \<and> numeric (hd (drop (Suc i) s)))"
    by (auto simp add: hd_drop_conv_nth)
  with a show ?thesis
    by (auto simp add: lookup_id_def scanId_def Let_def)
qed

lemma lookup_data_scan:
  "lookup_data parse type nsp id' s j = scanPayload parse type nsp id' (drop (Suc j) s)"
  by (cases "Suc j < length s") (simp_all add: lookup_data_def scanPayload_def charAt_def substr_def Let_def)

lemma decodePacket_scanPacket: "decodePacket parse s = Some (scanPacket parse s)"
proof -
  obtain i where i: "lookup_namespace s 0 = Some (i, fst (scanNamespace (drop 1 s)))"
    "drop (Suc i) s = snd (scanNamespace (drop 1 s))"
    using lookup_namespace_scan by blast
  obtain j where j: "lookup_id s i = Some (j, fst (scanId (drop (Suc i) s)))"
    "drop (Suc j) s = snd (scanId (drop (Suc i) s))"
    using lookup_id_scan by blast
  have "charAt s 0 = take 1 s" by (simp add: charAt_drop)
  with i j show ?thesis
    by (simp add: decodePacket_def scanPacket_def lookup_data_scan Let_def)
qed

section \<open>Facts about numbers and their digits\<close>

lemma Number_empty: "Number [] = Num 0"
  by (simp add: Number_def trim_def)

lemma ERROR_PACKET_text: \<open>ERROR_PACKET = ''4"encode error"''\<close>
  by code_simp

lemma decimal_zero: "decimal 0 = ''0''"
  by code_simp

lemma decimal_nonempty: "decimal n \<noteq> []"
  by (subst decimal.simps) simp

lemma isDecimalDigit_char_of: "d < 10 \<Longrightarrow> isDecimalDigit (char_of (48 + d :: nat))"
  by (simp add: isDecimalDigit_def)

lemma digitValue_char_of: "d < 10 \<Longrightarrow> digitValue (char_of (48 + d :: nat)) = d"
  by (simp add: digitValue_def)

lemma decimal_digits: "c \<in> set (decimal n) \<Longrightarrow> isDecimalDigit c"
proof (induction n arbitrary: c rule: decimal.induct)
  case (1 n)
  show ?case
  proof (cases "n < 10")
    case True
    with "1.prems" show ?thesis
      by (subst (asm) decimal.simps) (simp add: isDecimalDigit_char_of)
  next
    case False
    with "1.prems" "1.IH" show ?thesis
      by (subst (asm) decimal.simps) (auto simp add: isDecimalDigit_char_of)
  qed
qed

lemma mathematicalValue_snoc:
  "mathematicalValue (xs @ [c]) = 10 * mathematicalValue xs + digitValue c"
  by (simp add: mathematicalValue_def)

lemma mathematicalValue_decimal: "mathematicalValue (decimal n) = n"
proof (induction n rule: decimal.induct)
  case (1 n)
  show ?case
  proof (cases "n < 10")
    case True
    then show ?thesis
      by (subst decimal.simps) (simp add: mathematicalValue_def digitValue_char_of)
  next
    case False
    with "1.IH" show ?thesis
      by (subst decimal.simps) (simp add: mathematicalValue_snoc digitValue_char_of)
  qed
qed

lemma digit_not_space: "isDecimalDigit c \<Longrightarrow> \<not> isStrWhiteSpaceChar c"
  by (auto simp add: isDecimalDigit_def isStrWhiteSpaceChar_def)

lemma digit_numeric: "isDecimalDigit c \<Longrightarrow> numeric c"
  by (simp add: numeric_def)

lemma digit_not_slash: "isDecimalDigit c \<Longrightarrow> c \<noteq> CHR ''/''"
  by (auto simp add: isDecimalDigit_def)

lemma takeWhile_stop: "D = [] \<or> \<not> P (hd D) \<Longrightarrow> takeWhile P D = []"
  by (cases D) auto

lemma dropWhile_stop: "D = [] \<or> \<not> P (hd D) \<Longrightarrow> dropWhile P D = D"
  by (cases D) auto

lemma trim_digits:
  assumes "\<forall>c\<in>set xs. isDecimalDigit c"
  shows "trim xs = xs"
proof (cases "xs = []")
  case True
  then show ?thesis by (simp add: trim_def)
next
  case False
  with assms have "\<not> isStrWhiteSpaceChar (hd xs)" "\<not> isStrWhiteSpaceChar (last xs)"
    by (simp_all add: digit_not_space)
  with False have "dropWhile isStrWhiteSpaceChar xs = xs"
    and "dropWhile isStrWhiteSpaceChar (rev xs) = rev xs"
    by (simp_all add: dropWhile_stop hd_rev)
  then show ?thesis
    by (simp add: trim_def)
qed

lemma bitLength_le: "n < 2 ^ k \<Longrightarrow> bitLength n \<le> k"
proof (induction k arbitrary: n)
  case 0
  then show ?case by (subst bitLength.simps) simp
next
  case (Suc k)
  then have "n div 2 < 2 ^ k" by simp
  from Suc.IH [OF this] show ?case by (subst bitLength.simps) simp
qed

lemma Number_decimal: "n < 2 ^ 53 \<Longrightarrow> Number (decimal n) = Num n"
  using decimal_digits [of _ n]
  by (simp add: Number_def trim_digits decimal_nonempty list_all_iff mathematicalValue_decimal
      roundToDouble_def bitLength_le)

lemma decimal_small: "n < 10 \<Longrightarrow> decimal n = [char_of (48 + n)]"
  by (subst decimal.simps) simp




section \<open>The scan of a well-formed frame\<close>

lemma scanNamespace_default: "r = [] \<or> hd r \<noteq> CHR ''/'' \<Longrightarrow> scanNamespace r = (''/'', r)"
  by (auto simp add: scanNamespace_def)

lemma scanNamespace_custom:
  assumes "n \<noteq> []" "hd n = CHR ''/''" "CHR '','' \<notin> set n"
  shows "scanNamespace (n @ '','' @ r) = (n, r)"
proof -
  from assms(3) have a: "\<forall>c\<in>set n. c \<noteq> CHR '',''" by auto
  then have "takeWhile (\<lambda>c. c \<noteq> CHR '','') (n @ '','' @ r) = n"
    by (simp add: takeWhile_append2)
  moreover from a have "dropWhile (\<lambda>c. c \<noteq> CHR '','') (n @ '','' @ r) = '','' @ r"
    by (simp add: dropWhile_append2)
  ultimately show ?thesis
    using assms(1,2) by (simp add: scanNamespace_def)
qed

lemma scanId_none: "r = [] \<or> \<not> numeric (hd r) \<Longrightarrow> scanId r = (None, r)"
  by (auto simp add: scanId_def)

lemma scanId_digits:
  assumes "I \<noteq> []" "\<forall>c\<in>set I. numeric c" "D = [] \<or> \<not> numeric (hd D)"
  shows "scanId (I @ D) = (Some (Number I), D)"
proof -
  from assms(2,3) have "takeWhile numeric (I @ D) = I"
    by (simp add: takeWhile_append2 takeWhile_stop del: takeWhile_eq_Nil_iff)
  moreover from assms(2,3) have "dropWhile numeric (I @ D) = D"
    by (simp add: dropWhile_append2 dropWhile_stop)
  moreover from assms(1,2) have "numeric (hd (I @ D))" by simp
  ultimately show ?thesis
    using assms(1) by (simp add: scanId_def)
qed

lemma scanNamespace_no_slash:
  "charAt s 1 \<noteq> ''/'' \<Longrightarrow> scanNamespace (drop 1 s) = (''/'', drop 1 s)"
  by (rule scanNamespace_default) (auto simp add: charAt_def hd_drop_conv_nth split: if_splits)

lemma scanPayload_cases:
  "scanPayload parse type nsp id' r = buildError ''invalid payload'' \<or>
   (\<exists>dat. scanPayload parse type nsp id' r =
        \<lparr>p_type = type, p_nsp = Some nsp, p_id = id', p_data = dat\<rparr> \<and>
      (\<forall>v. dat = Some v \<longrightarrow> v \<noteq> JBool False \<and> (type = ERROR \<or> isArray v)))"
  by (simp add: scanPayload_def)


lemma types_at_known: "ty \<le> 4 \<Longrightarrow> types_at (Num ty) \<noteq> None"
  by (simp add: types_def)

lemma scanPacket_frame:
  assumes ty: "ty \<le> 4"
    and N: "N = [] \<or> (\<exists>n. N = n @ '','' \<and> n \<noteq> [] \<and> hd n = CHR ''/'' \<and> CHR '','' \<notin> set n)"
    and I: "I = [] \<or> (\<exists>k<2 ^ 53. I = decimal k)"
    and D: "D = [] \<or> (\<not> numeric (hd D) \<and> hd D \<noteq> CHR ''/'')"
  shows "scanPacket parse (decimal ty @ N @ I @ D) =
     scanPayload parse (Num ty) (if N = [] then ''/'' else butlast N)
       (if I = [] then None else Some (Number I)) D"
proof -
  from ty have t1: "decimal ty = [char_of (48 + ty)]" by (simp add: decimal_small)
  from ty have "ty < 2 ^ 53" by simp
  then have t2: "Number (decimal ty) = Num ty" by (rule Number_decimal)
  have digI: "\<forall>c\<in>set I. isDecimalDigit c"
    using I decimal_digits by auto
  then have allI: "\<forall>c\<in>set I. numeric c"
    by (simp add: digit_numeric)
  have hdI: "isDecimalDigit (hd I)" if "I \<noteq> []"
    using that digI by simp
  have sid: "scanId (I @ D) = (if I = [] then None else Some (Number I), D)"
  proof (cases "I = []")
    case True
    from D have "D = [] \<or> \<not> numeric (hd D)" by blast
    with True show ?thesis by (simp add: scanId_none)
  next
    case False
    from D have "D = [] \<or> \<not> numeric (hd D)" by blast
    with False allI show ?thesis by (simp add: scanId_digits)
  qed
  have sns: "scanNamespace (N @ I @ D) = (if N = [] then ''/'' else butlast N, I @ D)"
  proof (cases "N = []")
    case True
    have "I @ D = [] \<or> hd (I @ D) \<noteq> CHR ''/''"
      using hdI D by (cases "I = []") (auto simp add: digit_not_slash)
    with True show ?thesis by (simp add: scanNamespace_default)
  next
    case False
    with N obtain n where n: "N = n @ '',''" "n \<noteq> []" "hd n = CHR ''/''" "CHR '','' \<notin> set n"
      by blast
    from scanNamespace_custom [OF n(2,3,4), of "I @ D"] n(1) show ?thesis
      by simp
  qed
  have tk: "take 1 (decimal ty @ N @ I @ D) = decimal ty"
    and dr: "drop 1 (decimal ty @ N @ I @ D) = N @ I @ D"
    by (simp_all add: t1)
  have ns: "fst (scanNamespace (N @ I @ D)) = (if N = [] then ''/'' else butlast N)"
    "snd (scanNamespace (N @ I @ D)) = I @ D"
    by (simp_all add: sns)
  have id: "fst (scanId (I @ D)) = (if I = [] then None else Some (Number I))"
    "snd (scanId (I @ D)) = D"
    by (simp_all add: sid)
  have known: "(types_at (Num ty) = None) = False"
    using types_at_known [OF ty] by simp
  show ?thesis
    by (simp only: scanPacket_def Let_def tk dr t2 ns id known if_False)
qed

lemma encode_decode_frame:
  assumes ty: "p_type p \<in> {CONNECT, DISCONNECT, EVENT, ACK, ERROR}"
    and nsp: "p_nsp p = None \<or>
      (\<exists>n. p_nsp p = Some n \<and> n \<noteq> [] \<and> hd n = CHR ''/'' \<and> CHR '','' \<notin> set n)"
    and id: "p_id p = None \<or> (\<exists>k<2 ^ 53. p_id p = Some (Num k))"
    and data: "p_data p = None \<or>
      (\<exists>d t. p_data p = Some d \<and> d \<noteq> JNull \<and> d \<noteq> JBool False \<and>
         (p_type p = ERROR \<or> isArray d) \<and>
         stringify d = Returns t \<and> parse t = Some d \<and>
         t \<noteq> [] \<and> \<not> numeric (hd t) \<and> hd t \<noteq> CHR ''/'')"
  shows "decodePacket parse (encodePacket stringify p) =
     Some (p\<lparr>p_nsp := Some (case p_nsp p of None \<Rightarrow> ''/'' | Some n \<Rightarrow> n)\<rparr>)"
proof -
  from ty obtain ty' where ty': "p_type p = Num ty'" "ty' \<le> 4"
    by (auto simp add: CONNECT_def DISCONNECT_def EVENT_def ACK_def ERROR_def)
  define N where "N = (case p_nsp p of
      Some n \<Rightarrow> if n \<noteq> [] \<and> ''/'' \<noteq> n then n @ '','' else [] | None \<Rightarrow> [])"
  define I where "I = (case p_id p of Some n \<Rightarrow> numToString n | None \<Rightarrow> [])"
  define D where "D = (case p_data p of
      Some d \<Rightarrow> (case tryStringify stringify d of Some t \<Rightarrow> t | None \<Rightarrow> []) | None \<Rightarrow> [])"
  have enc: "encodePacket stringify p = decimal ty' @ N @ I @ D"
    using data ty'(1)
    by (auto simp add: encodePacket_def N_def I_def D_def tryStringify_def Let_def
        split: option.splits)
  have N: "N = [] \<or> (\<exists>n. N = n @ '','' \<and> n \<noteq> [] \<and> hd n = CHR ''/'' \<and> CHR '','' \<notin> set n)"
  proof (cases "N = []")
    case False
    then obtain n where "p_nsp p = Some n" "N = n @ '',''"
      by (auto simp add: N_def split: option.splits if_splits)
    with nsp show ?thesis by auto
  qed simp
  have nspv: "(if N = [] then ''/'' else butlast N) = (case p_nsp p of None \<Rightarrow> ''/'' | Some n \<Rightarrow> n)"
    using nsp by (auto simp add: N_def butlast_append split: option.splits)
  have I: "I = [] \<or> (\<exists>k<2 ^ 53. I = decimal k)"
    using id by (auto simp add: I_def)
  have idv: "(if I = [] then None else Some (Number I)) = p_id p"
    using id by (auto simp add: I_def decimal_nonempty Number_decimal)
  have D: "D = [] \<or> (\<not> numeric (hd D) \<and> hd D \<noteq> CHR ''/'')"
    using data by (auto simp add: D_def tryStringify_def)
  have pay: "scanPayload parse (Num ty') (case p_nsp p of None \<Rightarrow> ''/'' | Some n \<Rightarrow> n) (p_id p) D
      = p\<lparr>p_nsp := Some (case p_nsp p of None \<Rightarrow> ''/'' | Some n \<Rightarrow> n)\<rparr>"
    using data ty'(1)
    by (cases p) (auto simp add: D_def tryStringify_def scanPayload_def tryParse_def)
  from scanPacket_frame [OF ty'(2) N I D, of parse] show ?thesis
    by (simp only: decodePacket_scanPacket enc nspv idv pay)
qed

section \<open>Properties of the encoder and the decoder\<close>

subsection \<open>Encoding, then decoding\<close>

text \<open>
  Counterexample to C1 as stated: a packet of type ERROR whose data is the number 5. Its
  frame is \<open>45\<close>, and the decoder reads the payload \<open>5\<close> as the id.
\<close>

theorem roundtrip_counterexample:
  "fixture_stringify (JNum 5) = Returns ''5'' \<and>
   fixture_parse ''5'' = Some (JNum 5) \<and>
   encodePacket fixture_stringify
     \<lparr>p_type = ERROR, p_nsp = Some ''/'', p_id = None, p_data = Some (JNum 5)\<rparr> = ''45'' \<and>
   decodePacket fixture_parse ''45'' =
     Some \<lparr>p_type = ERROR, p_nsp = Some ''/'', p_id = Some (Num 5), p_data = None\<rparr>"
  by code_simp

text \<open>
  C1, as amended. Take a packet whose type is one of the five types, whose namespace is
  absent or begins with \<open>/\<close> and contains no comma, whose id is absent or a non-negative
  integer below \<open>2^53\<close>, and whose data is absent or a value that is neither \<open>null\<close> nor
  \<open>false\<close>, is an array unless the type is ERROR, and whose JSON text parses back to it
  and begins with a character that is not a digit, not white space and not \<open>/\<close>. Then
  decoding the frame produced by encoding the packet yields the packet itself, with the
  namespace \<open>/\<close> when the packet has none.
\<close>

theorem roundtrip:
  assumes "p_type p \<in> {CONNECT, DISCONNECT, EVENT, ACK, ERROR}"
    and "p_nsp p = None \<or>
      (\<exists>n. p_nsp p = Some n \<and> n \<noteq> [] \<and> hd n = CHR ''/'' \<and> CHR '','' \<notin> set n)"
    and "p_id p = None \<or> (\<exists>k<2 ^ 53. p_id p = Some (Num k))"
    and "p_data p = None \<or>
      (\<exists>d t. p_data p = Some d \<and> d \<noteq> JNull \<and> d \<noteq> JBool False \<and>
         (p_type p = ERROR \<or> isArray d) \<and>
         stringify d = Returns t \<and> parse t = Some d \<and>
         t \<noteq> [] \<and> \<not> numeric (hd t) \<and> hd t \<noteq> CHR ''/'')"
  shows "decodePacket parse (encodePacket stringify p) =
     Some (p\<lparr>p_nsp := Some (case p_nsp p of None \<Rightarrow> ''/'' | Some n \<Rightarrow> n)\<rparr>)"
  using assms by (rule encode_decode_frame)

theorem roundtrip_witness:
  \<open>encodePacket fixture_stringify
     \<lparr>p_type = EVENT, p_nsp = Some ''/admin'', p_id = Some (Num 456),
      p_data = Some (JArr [JStr ''hello''])\<rparr> = ''2/admin,456["hello"]'' \<and>
   decodePacket fixture_parse
     (encodePacket fixture_stringify
        \<lparr>p_type = EVENT, p_nsp = Some ''/admin'', p_id = Some (Num 456),
         p_data = Some (JArr [JStr ''hello''])\<rparr>) =
     Some \<lparr>p_type = EVENT, p_nsp = Some ''/admin'', p_id = Some (Num 456),
           p_data = Some (JArr [JStr ''hello''])\<rparr>\<close>
proof -
  let ?p = "\<lparr>p_type = EVENT, p_nsp = Some ''/admin'', p_id = Some (Num 456),
      p_data = Some (JArr [JStr ''hello''])\<rparr>"
  have 1: "p_type ?p \<in> {CONNECT, DISCONNECT, EVENT, ACK, ERROR}"
    by simp
  have 2: "p_nsp ?p = None \<or>
      (\<exists>n. p_nsp ?p = Some n \<and> n \<noteq> [] \<and> hd n = CHR ''/'' \<and> CHR '','' \<notin> set n)"
    by simp
  have 3: "p_id ?p = None \<or> (\<exists>k<2 ^ 53. p_id ?p = Some (Num k))"
    by simp
  have \<open>fixture_stringify (JArr [JStr ''hello'']) = Returns ''["hello"]'' \<and>
      fixture_parse ''["hello"]'' = Some (JArr [JStr ''hello'']) \<and>
      \<not> numeric (hd ''["hello"]'')\<close>
    by code_simp
  then have 4: "p_data ?p = None \<or>
      (\<exists>d t. p_data ?p = Some d \<and> d \<noteq> JNull \<and> d \<noteq> JBool False \<and>
         (p_type ?p = ERROR \<or> isArray d) \<and>
         fixture_stringify d = Returns t \<and> fixture_parse t = Some d \<and>
         t \<noteq> [] \<and> \<not> numeric (hd t) \<and> hd t \<noteq> CHR ''/'')"
    by simp
  have e: \<open>encodePacket fixture_stringify ?p = ''2/admin,456["hello"]''\<close>
    by code_simp
  from roundtrip [OF 1 2 3 4] e show ?thesis
    by simp
qed

text \<open>
  Counterexample to C8 as stated: a packet of type ERROR whose id is 0 and whose data is
  the number 5. Its frame is \<open>405\<close>, and the decoder reads \<open>05\<close> as the id 5.
\<close>

theorem id_zero_counterexample:
  "fixture_stringify (JNum 5) = Returns ''5'' \<and>
   encodePacket fixture_stringify
     \<lparr>p_type = ERROR, p_nsp = Some ''/'', p_id = Some (Num 0), p_data = Some (JNum 5)\<rparr>
     = ''405'' \<and>
   decodePacket fixture_parse ''405'' =
     Some \<lparr>p_type = ERROR, p_nsp = Some ''/'', p_id = Some (Num 5), p_data = None\<rparr>"
  by code_simp

text \<open>
  C8, as amended. Take a packet as in C1 whose id is 0. Its frame is the frame of the
  type and the namespace, then the digit \<open>0\<close>, then the payload; decoding it yields the
  packet with the id present and equal to 0, and decoding the frame of the same packet
  without an id yields the packet without an id.
\<close>

theorem id_zero_preserved:
  assumes ty: "p_type p \<in> {CONNECT, DISCONNECT, EVENT, ACK, ERROR}"
    and nsp: "p_nsp p = None \<or>
      (\<exists>n. p_nsp p = Some n \<and> n \<noteq> [] \<and> hd n = CHR ''/'' \<and> CHR '','' \<notin> set n)"
    and id: "p_id p = Some (Num 0)"
    and data: "p_data p = None \<or>
      (\<exists>d t. p_data p = Some d \<and> d \<noteq> JNull \<and> d \<noteq> JBool False \<and>
         (p_type p = ERROR \<or> isArray d) \<and>
         stringify d = Returns t \<and> parse t = Some d \<and>
         t \<noteq> [] \<and> \<not> numeric (hd t) \<and> hd t \<noteq> CHR ''/'')"
  shows "(\<exists>D. encodePacket stringify p =
            encodePacket stringify (p\<lparr>p_id := None, p_data := None\<rparr>) @ ''0'' @ D \<and>
          encodePacket stringify (p\<lparr>p_id := None\<rparr>) =
            encodePacket stringify (p\<lparr>p_id := None, p_data := None\<rparr>) @ D) \<and>
     decodePacket parse (encodePacket stringify p) =
       Some (p\<lparr>p_nsp := Some (case p_nsp p of None \<Rightarrow> ''/'' | Some n \<Rightarrow> n),
               p_id := Some (Num 0)\<rparr>) \<and>
     decodePacket parse (encodePacket stringify (p\<lparr>p_id := None\<rparr>)) =
       Some (p\<lparr>p_nsp := Some (case p_nsp p of None \<Rightarrow> ''/'' | Some n \<Rightarrow> n),
               p_id := None\<rparr>)"
proof (intro conjI)
  show "\<exists>D. encodePacket stringify p =
            encodePacket stringify (p\<lparr>p_id := None, p_data := None\<rparr>) @ ''0'' @ D \<and>
          encodePacket stringify (p\<lparr>p_id := None\<rparr>) =
            encodePacket stringify (p\<lparr>p_id := None, p_data := None\<rparr>) @ D"
    using data id
    by (auto simp add: encodePacket_def tryStringify_def Let_def decimal_zero
        split: option.splits)
next
  from id have "p_id p = None \<or> (\<exists>k<2 ^ 53. p_id p = Some (Num k))" by simp
  from encode_decode_frame [OF ty nsp this data] id
  show "decodePacket parse (encodePacket stringify p) =
       Some (p\<lparr>p_nsp := Some (case p_nsp p of None \<Rightarrow> ''/'' | Some n \<Rightarrow> n),
               p_id := Some (Num 0)\<rparr>)"
    by (cases p) simp
next
  let ?q = "p\<lparr>p_id := None\<rparr>"
  have "decodePacket parse (encodePacket stringify ?q) =
     Some (?q\<lparr>p_nsp := Some (case p_nsp ?q of None \<Rightarrow> ''/'' | Some n \<Rightarrow> n)\<rparr>)"
    using ty nsp data by (intro encode_decode_frame) simp_all
  then show "decodePacket parse (encodePacket stringify (p\<lparr>p_id := None\<rparr>)) =
       Some (p\<lparr>p_nsp := Some (case p_nsp p of None \<Rightarrow> ''/'' | Some n \<Rightarrow> n),
               p_id := None\<rparr>)"
    by (cases p) simp
qed

theorem id_zero_preserved_witness:
  \<open>encodePacket fixture_stringify
     \<lparr>p_type = EVENT, p_nsp = Some ''/'', p_id = Some (Num 0),
      p_data = Some (JArr [])\<rparr> = ''20[]'' \<and>
   decodePacket fixture_parse ''20[]'' =
     Some \<lparr>p_type = EVENT, p_nsp = Some ''/'', p_id = Some (Num 0), p_data = Some (JArr [])\<rparr> \<and>
   encodePacket fixture_stringify
     \<lparr>p_type = EVENT, p_nsp = Some ''/'', p_id = None, p_data = Some (JArr [])\<rparr> = ''2[]'' \<and>
   decodePacket fixture_parse ''2[]'' =
     Some \<lparr>p_type = EVENT, p_nsp = Some ''/'', p_id = None, p_data = Some (JArr [])\<rparr>\<close>
proof -
  let ?p = "\<lparr>p_type = EVENT, p_nsp = Some ''/'', p_id = Some (Num 0),
      p_data = Some (JArr [])\<rparr>"
  have 1: "p_type ?p \<in> {CONNECT, DISCONNECT, EVENT, ACK, ERROR}"
    by simp
  have 2: "p_nsp ?p = None \<or>
      (\<exists>n. p_nsp ?p = Some n \<and> n \<noteq> [] \<and> hd n = CHR ''/'' \<and> CHR '','' \<notin> set n)"
    by simp
  have 3: "p_id ?p = Some (Num 0)"
    by simp
  have \<open>fixture_stringify (JArr []) = Returns ''[]'' \<and>
      fixture_parse ''[]'' = Some (JArr []) \<and> \<not> numeric (hd ''[]'')\<close>
    by code_simp
  then have 4: "p_data ?p = None \<or>
      (\<exists>d t. p_data ?p = Some d \<and> d \<noteq> JNull \<and> d \<noteq> JBool False \<and>
         (p_type ?p = ERROR \<or> isArray d) \<and>
         fixture_stringify d = Returns t \<and> fixture_parse t = Some d \<and>
         t \<noteq> [] \<and> \<not> numeric (hd t) \<and> hd t \<noteq> CHR ''/'')"
    by simp
  have e: \<open>encodePacket fixture_stringify ?p = ''20[]''\<close>
    \<open>encodePacket fixture_stringify (?p\<lparr>p_id := None\<rparr>) = ''2[]''\<close>
    by code_simp+
  from id_zero_preserved [OF 1 2 3 4] e show ?thesis
    by simp
qed

subsection \<open>The default namespace\<close>

text \<open>
  Counterexample to C7 as stated: the frame \<open>2{}\<close> has no \<open>/\<close> at position 1, and it
  decodes to the error packet \<open>invalid payload\<close>, which has no namespace at all.
\<close>

theorem default_namespace_counterexample:
  "charAt ''2{}'' 1 \<noteq> ''/'' \<and>
   decodePacket fixture_parse ''2{}'' = Some (buildError ''invalid payload'') \<and>
   p_nsp (buildError ''invalid payload'') = None"
  by code_simp

text \<open>
  C7, as amended. Encoding a packet whose namespace is \<open>/\<close> gives the frame of the same
  packet without a namespace: the fallback frame, or the type followed at once by the id,
  if any, and the payload, if any. Decoding a frame whose character at position 1 is not
  \<open>/\<close> leaves the scan position of the namespace stage at 0 and yields a packet whose
  namespace is \<open>/\<close>, unless it yields one of the two error packets, which have no
  namespace.
\<close>

theorem default_namespace_omitted:
  "(p_nsp p = Some ''/'' \<longrightarrow>
      encodePacket stringify p = encodePacket stringify (p\<lparr>p_nsp := None\<rparr>) \<and>
      (encodePacket stringify p = ERROR_PACKET \<or>
       (\<exists>payload.
          encodePacket stringify p =
            numToString (p_type p) @
            (case p_id p of None \<Rightarrow> '''' | Some n \<Rightarrow> numToString n) @ payload \<and>
          (payload = '''' \<or> (\<exists>d. p_data p = Some d \<and> stringify d = Returns payload))))) \<and>
   (charAt s 1 \<noteq> ''/'' \<longrightarrow>
      lookup_namespace s 0 = Some (0, ''/'') \<and>
      (\<exists>q. decodePacket parse s = Some q \<and>
         (p_nsp q = Some ''/'' \<or>
          q = buildError (''unknown packet type '' @ numToString (Number (charAt s 0))) \<or>
          q = buildError ''invalid payload'')))"
proof (intro conjI impI)
  assume "p_nsp p = Some ''/''"
  then show "encodePacket stringify p = encodePacket stringify (p\<lparr>p_nsp := None\<rparr>)"
    by (simp add: encodePacket_def)
next
  assume "p_nsp p = Some ''/''"
  then show "encodePacket stringify p = ERROR_PACKET \<or>
       (\<exists>payload.
          encodePacket stringify p =
            numToString (p_type p) @
            (case p_id p of None \<Rightarrow> '''' | Some n \<Rightarrow> numToString n) @ payload \<and>
          (payload = '''' \<or> (\<exists>d. p_data p = Some d \<and> stringify d = Returns payload)))"
    by (auto simp add: encodePacket_def tryStringify_def Let_def
        split: option.splits outcome.splits)
next
  assume "charAt s 1 \<noteq> ''/''"
  then show "lookup_namespace s 0 = Some (0, ''/'')"
    by (auto simp add: lookup_namespace_def)
next
  assume a: "charAt s 1 \<noteq> ''/''"
  let ?type = "Number (take 1 s)"
  let ?id = "fst (scanId (drop 1 s))"
  let ?r = "snd (scanId (drop 1 s))"
  have c0: "charAt s 0 = take 1 s" by (simp add: charAt_drop)
  have sp: "scanPacket parse s =
      (if types_at ?type = None
       then buildError (''unknown packet type '' @ numToString ?type)
       else scanPayload parse ?type ''/'' ?id ?r)"
    by (simp only: scanPacket_def Let_def scanNamespace_no_slash [OF a] fst_conv snd_conv)
  have "p_nsp (scanPacket parse s) = Some ''/'' \<or>
      scanPacket parse s = buildError (''unknown packet type '' @ numToString ?type) \<or>
      scanPacket parse s = buildError ''invalid payload''"
  proof (cases "types_at ?type = None")
    case True
    then have "scanPacket parse s = buildError (''unknown packet type '' @ numToString ?type)"
      by (simp only: sp refl if_True)
    then show ?thesis by blast
  next
    case False
    then have "(types_at ?type = None) = False" by blast
    then have "scanPacket parse s = scanPayload parse ?type ''/'' ?id ?r"
      by (simp only: sp if_False)
    with scanPayload_cases [of parse ?type "''/''" ?id ?r] show ?thesis
      by auto
  qed
  then show "\<exists>q. decodePacket parse s = Some q \<and>
         (p_nsp q = Some ''/'' \<or>
          q = buildError (''unknown packet type '' @ numToString (Number (charAt s 0))) \<or>
          q = buildError ''invalid payload'')"
    by (simp add: decodePacket_scanPacket c0)
qed

theorem default_namespace_omitted_witness:
  \<open>p_nsp \<lparr>p_type = EVENT, p_nsp = Some ''/'', p_id = None,
      p_data = Some (JArr [JStr ''hello''])\<rparr> = Some ''/'' \<and>
   encodePacket fixture_stringify
     \<lparr>p_type = EVENT, p_nsp = Some ''/'', p_id = None, p_data = Some (JArr [JStr ''hello''])\<rparr>
     = ''2["hello"]'' \<and>
   charAt ''2["hello"]'' 1 \<noteq> ''/'' \<and>
   lookup_namespace ''2["hello"]'' 0 = Some (0, ''/'') \<and>
   map_option p_nsp (decodePacket fixture_parse ''2["hello"]'') = Some (Some ''/'')\<close>
proof -
  let ?p = "\<lparr>p_type = EVENT, p_nsp = Some ''/'', p_id = None,
      p_data = Some (JArr [JStr ''hello''])\<rparr>"
  have e: \<open>encodePacket fixture_stringify ?p = ''2["hello"]''\<close>
    and d: \<open>map_option p_nsp (decodePacket fixture_parse ''2["hello"]'') = Some (Some ''/'')\<close>
    by code_simp+
  have c: \<open>charAt ''2["hello"]'' 1 \<noteq> ''/''\<close> by code_simp
  from default_namespace_omitted [of ?p fixture_stringify \<open>''2["hello"]''\<close> fixture_parse] c
  have \<open>lookup_namespace ''2["hello"]'' 0 = Some (0, ''/'')\<close>
    by blast
  with e d c show ?thesis by simp
qed

subsection \<open>Frames with an unknown type\<close>


subsection \<open>The type of a decoded packet\<close>



subsection \<open>The empty frame\<close>

text \<open>
  C10. Decoding the empty string does not produce an error packet: the missing character
  at position 0 is the empty string, which \<open>Number\<close> turns into 0, and the result is the
  packet of type CONNECT with namespace \<open>/\<close>, no id and no data, whatever the JSON parser
  is.
\<close>

theorem decode_empty_frame:
  "Number (charAt '''' 0) = Num 0 \<and>
   decodePacket parse '''' =
     Some \<lparr>p_type = CONNECT, p_nsp = Some ''/'', p_id = None, p_data = None\<rparr>"
  by (simp add: decodePacket_scanPacket scanPacket_def scanNamespace_def scanId_def
      scanPayload_def charAt_def Number_empty types_def CONNECT_def)

subsection \<open>Frames with white space\<close>

text \<open>
  C3. A frame whose first character is not the digit of a known type should decode to the
  error packet \<open>unknown packet type\<close>. The decoder misses white space: \<open>Number\<close> turns a
  space into 0, so the frame of one space decodes to a CONNECT packet and not to an error
  packet.
\<close>

theorem decode_space_frame:
  "decodePacket parse '' '' =
     Some \<lparr>p_type = CONNECT, p_nsp = Some ''/'', p_id = None, p_data = None\<rparr>"
  by (simp add: decodePacket_scanPacket scanPacket_def scanNamespace_def scanId_def
      scanPayload_def Number_def trim_def isStrWhiteSpaceChar_def types_def CONNECT_def)

text \<open>
  C6. The id stage should start only at a decimal digit and accumulate decimal digits only.
  The decoder tests \<open>Number(c) == c\<close>, which holds for white space too: in the frame \<open>2\<close>
  followed by a space, the space is taken for an id, and the packet has the id 0.
\<close>

theorem decode_space_as_id:
  "decodePacket parse ''2 '' =
     Some \<lparr>p_type = EVENT, p_nsp = Some ''/'', p_id = Some (Num 0), p_data = None\<rparr>"
  by (simp add: decodePacket_scanPacket scanPacket_def scanNamespace_def scanId_def
      scanPayload_def Number_def trim_def isStrWhiteSpaceChar_def isDecimalDigit_def
      numeric_def mathematicalValue_def digitValue_def roundToDouble_def bitLength.simps
      types_def EVENT_def)

text \<open>White space between digits is accumulated as well, and the id is then NaN.\<close>

lemma decode_space_inside_id:
  "decodePacket parse ''21 2'' =
     Some \<lparr>p_type = EVENT, p_nsp = Some ''/'', p_id = Some NaN, p_data = None\<rparr>"
  by (simp add: decodePacket_scanPacket scanPacket_def scanNamespace_def scanId_def
      scanPayload_def Number_def trim_def isStrWhiteSpaceChar_def isDecimalDigit_def
      numeric_def mathematicalValue_def digitValue_def roundToDouble_def bitLength.simps
      types_def EVENT_def)

subsection \<open>The payload \<open>false\<close>\<close>

text \<open>
  A payload that parses to the value \<open>v\<close> is accepted exactly when \<open>v\<close> is not \<open>false\<close> and
  the type is ERROR or \<open>v\<close> is an array; otherwise the result is the error packet
  \<open>invalid payload\<close>.
\<close>

lemma payload_validation:
  assumes "types_at (Number (charAt s 0)) \<noteq> None"
    and "lookup_namespace s 0 = Some (i, nsp)"
    and "lookup_id s i = Some (j, id')"
    and "charAt s (j + 1) \<noteq> ''''"
    and "parse (substr s (j + 1)) = Some v"
  shows "decodePacket parse s =
    Some (if v \<noteq> JBool False \<and> (Number (charAt s 0) = ERROR \<or> isArray v)
          then \<lparr>p_type = Number (charAt s 0), p_nsp = Some nsp, p_id = id', p_data = Some v\<rparr>
          else buildError ''invalid payload'')"
  using assms
  by (auto simp add: decodePacket_def lookup_data_def tryParse_def Let_def)

text \<open>
  C2. A payload that parses should be accepted whenever the type is ERROR. \<open>_tryParse\<close>
  reports a failure as \<open>false\<close>, so the payload \<open>false\<close>, which parses to the value
  \<open>false\<close>, is taken for a failure: the frame \<open>4false\<close> decodes to the error packet
  \<open>invalid payload\<close>.
\<close>

theorem decode_error_false_payload:
  "fixture_parse ''false'' = Some (JBool False) \<and>
   decodePacket fixture_parse ''4false'' = Some (buildError ''invalid payload'')"
  by code_simp

subsection \<open>\<open>add\<close> with an argument that is not a string\<close>

text \<open>
  C9. For every argument that is not a string, \<open>add\<close> throws (the result is \<open>Inl\<close>, the
  error raised in the call itself) and no \<open>decoded\<close> notification is produced: the result
  is not a list of emitted packets.
\<close>

theorem add_non_text:
  "(\<forall>s. arg \<noteq> JStr s) \<Longrightarrow> add parse arg = Inl (UnknownType arg)"
  by (cases arg) (simp_all add: add_def)

theorem add_non_text_witness:
  "(\<forall>s. JNum 7 \<noteq> JStr s) \<and> add fixture_parse (JNum 7) = Inl (UnknownType (JNum 7))"
  using add_non_text [of "JNum 7" fixture_parse] by simp

subsection \<open>Data that cannot be serialized\<close>

text \<open>
  When the logger returns, \<open>encode\<close> raises nothing: for data that makes \<open>JSON.stringify\<close>
  raise it calls the callback exactly once, with the array of the one frame
  \<open>4"encode error"\<close>. (Data that is \<open>null\<close> is never handed to \<open>JSON.stringify\<close>.) A
  disabled logger always returns, and \<open>encode\<close> raises exactly when the logger does.
\<close>

lemma encode_logger_returns:
  \<open>debug p = Returns u \<Longrightarrow> p_data p = Some d \<Longrightarrow> d \<noteq> JNull \<Longrightarrow> stringify d = Raises \<Longrightarrow>
   encode debug stringify p = Returns [ [''4"encode error"''] ]\<close>
  by (simp add: encode_def encodePacket_def tryStringify_def ERROR_PACKET_text Let_def
      split: option.splits)

lemma encode_logger_disabled:
  "encode debug_disabled stringify p = Returns [ [encodePacket stringify p] ]"
  by (simp add: encode_def debug_disabled_def)

lemma encode_raises_iff: "encode debug stringify p = Raises \<longleftrightarrow> debug p = Raises"
  by (simp add: encode_def split: outcome.splits)

text \<open>
  C4. For every packet whose data makes \<open>JSON.stringify\<close> raise, \<open>encode\<close> should raise
  nothing and call the callback once, with the frame \<open>4"encode error"\<close>. The call
  \<open>debug('encoding packet %j', packet)\<close> at the start of \<open>encode\<close> is outside the \<open>try\<close> of
  \<open>_tryStringify\<close>: with the logger enabled, \<open>encode\<close> raises on a packet whose data is an
  array that holds a BigInt, and the callback is never called.
\<close>

theorem encode_raises_with_logger:
  "fixture_stringify (JArr [JBigInt 1]) = Raises \<and>
   tryStringify fixture_stringify (JArr [JBigInt 1]) = None \<and>
   encode (debug_enabled fixture_stringify) fixture_stringify
     \<lparr>p_type = EVENT, p_nsp = Some ''/'', p_id = None, p_data = Some (JArr [JBigInt 1])\<rparr>
     = Raises"
  by code_simp

end
